theory Spec2Isabelle
  imports Main
begin

section \<open>JavaScript values and errors\<close>

text \<open>
  The program is \<^verbatim>\<open>src/script/convert_xmind_to_markdown.js\<close>. Its core reads
  \<^verbatim>\<open>content.json\<close> out of a zip archive (\<^verbatim>\<open>readXmindContent\<close>), and turns the
  parsed value into Markdown (\<^verbatim>\<open>getNodeTitle\<close>, \<^verbatim>\<open>nodeToMarkdown\<close>,
  \<^verbatim>\<open>xmindToMarkdown\<close>).

  The value that \<^verbatim>\<open>JSON.parse\<close> returns is untyped, and the code tests it with
  truthiness, \<^verbatim>\<open>typeof\<close> and \<^verbatim>\<open>Array.isArray\<close>; so the model works on
  JavaScript values, not on a typed document.
  \<^item> \<open>JUndefined\<close> is what reading a property that is not there gives.
  \<^item> A number is held as the text that \<^verbatim>\<open>Number.prototype.toString\<close> gives for it
    (\<open>JNum ''5''\<close>, \<open>JNum ''1.5''\<close>). The program looks at a number in two ways only,
    truthiness and conversion to a string, and both are functions of that text: the
    numbers that are not truthy are \<^verbatim>\<open>0\<close>, \<^verbatim>\<open>-0\<close> (both print as \<^verbatim>\<open>0\<close>) and
    \<^verbatim>\<open>NaN\<close>.
  \<^item> A string is the list of its code points, which is what iterating a string yields.
  \<^item> An object is the list of its own properties, in insertion order. The keys of an
    object that \<^verbatim>\<open>JSON.parse\<close> returns are distinct.
\<close>

datatype jsval =
    JUndefined
  | JNull
  | JBool bool
  | JNum string
  | JStr string
  | JArr "jsval list"
  | JObj "(string \<times> jsval) list"

text \<open>
  The two \<^verbatim>\<open>Error\<close> objects the program creates itself differ in their message only.
  Both messages are Chinese text, so they are named here:
  \<open>ContentJsonNotFound\<close> is the message of line 59 (no \<^verbatim>\<open>content.json\<close> in the
  XMind file), \<open>InvalidContentFormat\<close> the one of line 118 (invalid XMind content
  format).
\<close>

datatype message = ContentJsonNotFound | InvalidContentFormat

text \<open>
  What can be thrown: an \<^verbatim>\<open>Error\<close> of the program, the \<^verbatim>\<open>SyntaxError\<close> of
  \<^verbatim>\<open>JSON.parse\<close> with its message, the \<^verbatim>\<open>TypeError\<close> and \<^verbatim>\<open>RangeError\<close> of the
  language, and whatever else a library call throws (\<open>OtherError\<close>, with its message).
\<close>

datatype error =
    Error message
  | SyntaxError string
  | TypeError
  | RangeError
  | OtherError string

subsection \<open>Operations of the language\<close>

text \<open>\<^verbatim>\<open>ToBoolean\<close>: what \<^verbatim>\<open>!v\<close>, \<^verbatim>\<open>v && ...\<close> and \<^verbatim>\<open>v || ...\<close> test.\<close>

fun truthy :: "jsval \<Rightarrow> bool" where
  "truthy JUndefined = False"
| "truthy JNull = False"
| "truthy (JBool b) = b"
| "truthy (JNum n) = (n \<noteq> ''0'' \<and> n \<noteq> ''NaN'')"
| "truthy (JStr s) = (s \<noteq> [])"
| "truthy (JArr xs) = True"
| "truthy (JObj kvs) = True"

text \<open>
  The property read \<^verbatim>\<open>v.k\<close>, for a key \<open>k\<close> that no prototype defines and that is
  neither an index nor \<^verbatim>\<open>length\<close>; the four keys the program reads (\<^verbatim>\<open>title\<close>,
  \<^verbatim>\<open>rootTopic\<close>, \<^verbatim>\<open>children\<close>, \<^verbatim>\<open>attached\<close>) are such keys. Reading a property of
  \<^verbatim>\<open>undefined\<close> or \<^verbatim>\<open>null\<close> throws a \<^verbatim>\<open>TypeError\<close>; a boolean, a number, a string
  and an array have no such property; an object has it when it is one of its own.
\<close>

fun getProp :: "jsval \<Rightarrow> string \<Rightarrow> error + jsval" where
  "getProp JUndefined k = Inl TypeError"
| "getProp JNull k = Inl TypeError"
| "getProp (JObj kvs) k = (case map_of kvs k of None \<Rightarrow> Inr JUndefined | Some v \<Rightarrow> Inr v)"
| "getProp v k = Inr JUndefined"

text \<open>
  The results of a list of computations in order, or the first error: how a sequence of
  calls behaves when any of them may throw.
\<close>

fun collect :: "('a \<Rightarrow> error + 'b) \<Rightarrow> 'a list \<Rightarrow> error + 'b list" where
  "collect f [] = Inr []"
| "collect f (x # xs) =
     (case f x of
        Inl e \<Rightarrow> Inl e
      | Inr y \<Rightarrow> (case collect f xs of Inl e \<Rightarrow> Inl e | Inr ys \<Rightarrow> Inr (y # ys)))"

lemma collect_cong [fundef_cong]:
  "xs = ys \<Longrightarrow> (\<And>x. x \<in> set ys \<Longrightarrow> f x = g x) \<Longrightarrow> collect f xs = collect g ys"
  by (induction ys arbitrary: xs) (auto split: sum.splits)

text \<open>\<^verbatim>\<open>Array.prototype.join\<close> on strings already converted.\<close>

fun join :: "string \<Rightarrow> string list \<Rightarrow> string" where
  "join sep [] = []"
| "join sep [s] = s"
| "join sep (s # t # ts) = s @ sep @ join sep (t # ts)"

text \<open>
  \<^verbatim>\<open>ToString\<close>, which a template literal applies to \<^verbatim>\<open>${...}\<close>. An array prints as its
  elements joined by commas, \<^verbatim>\<open>undefined\<close> and \<^verbatim>\<open>null\<close> elements as the empty string.
  An object prints as \<^verbatim>\<open>[object Object]\<close> through \<^verbatim>\<open>Object.prototype.toString\<close>; an
  own property \<^verbatim>\<open>toString\<close> hides that method and, coming from JSON, is not callable,
  and then neither the own nor the inherited \<^verbatim>\<open>valueOf\<close> gives a primitive: a
  \<^verbatim>\<open>TypeError\<close>.
\<close>

fun toString :: "jsval \<Rightarrow> error + string" where
  "toString JUndefined = Inr ''undefined''"
| "toString JNull = Inr ''null''"
| "toString (JBool b) = Inr (if b then ''true'' else ''false'')"
| "toString (JNum n) = Inr n"
| "toString (JStr s) = Inr s"
| "toString (JArr xs) =
     (case collect (\<lambda>x. if x = JUndefined \<or> x = JNull then Inr [] else toString x) xs of
        Inl e \<Rightarrow> Inl e
      | Inr ss \<Rightarrow> Inr (join '','' ss))"
| "toString (JObj kvs) =
     (if map_of kvs ''toString'' \<noteq> None then Inl TypeError else Inr ''[object Object]'')"

text \<open>\<^verbatim>\<open>String.prototype.repeat\<close>: a negative count throws a \<^verbatim>\<open>RangeError\<close>.\<close>

definition repeat :: "string \<Rightarrow> int \<Rightarrow> error + string" where
  "repeat s count = (if count < 0 then Inl RangeError else Inr (concat (replicate (nat count) s)))"

text \<open>
  What \<^verbatim>\<open>for (const x of v)\<close> iterates over: the elements of an array, the code
  points of a string (each a string of its own); any other value is not iterable, and the
  loop throws a \<^verbatim>\<open>TypeError\<close> before its first round.
\<close>

fun iterate :: "jsval \<Rightarrow> error + jsval list" where
  "iterate (JArr xs) = Inr xs"
| "iterate (JStr s) = Inr (map (\<lambda>c. JStr [c]) s)"
| "iterate v = Inl TypeError"

text \<open>
  A \<^verbatim>\<open>for ... of\<close> loop whose body updates one variable and may throw: the body takes the
  element and the variable's value, and the first error ends the loop.
\<close>

fun for_of :: "('a \<Rightarrow> 's \<Rightarrow> error + 's) \<Rightarrow> 'a list \<Rightarrow> 's \<Rightarrow> error + 's" where
  "for_of body [] s = Inr s"
| "for_of body (x # xs) s =
     (case body x s of Inl e \<Rightarrow> Inl e | Inr s' \<Rightarrow> for_of body xs s')"

lemma for_of_cong [fundef_cong]:
  "xs = ys \<Longrightarrow> s = t \<Longrightarrow> (\<And>x u. x \<in> set ys \<Longrightarrow> body x u = body' x u)
    \<Longrightarrow> for_of body xs s = for_of body' ys t"
  by (induction ys arbitrary: xs s t) (auto split: sum.splits)

section \<open>The archive extractor\<close>



section \<open>The outline renderer\<close>

text \<open>\<^verbatim>\<open>getNodeTitle\<close> (lines 70-76).\<close>

definition getNodeTitle :: "jsval \<Rightarrow> error + string" where
  "getNodeTitle node =
     (if \<not> truthy node then Inr []
      else (case getProp node ''title'' of
              Inl e \<Rightarrow> Inl e
            | Inr (JStr t) \<Rightarrow> Inr t
            | Inr _ \<Rightarrow> Inr []))"

text \<open>
  Line 102, \<^verbatim>\<open>node.children?.attached || []\<close>: the optional chain stops at an
  \<^verbatim>\<open>undefined\<close> or \<^verbatim>\<open>null\<close> \<^verbatim>\<open>children\<close>, and a value that is not truthy is replaced by
  the empty array.
\<close>

definition attached :: "jsval \<Rightarrow> error + jsval" where
  "attached node =
     (case getProp node ''children'' of
        Inl e \<Rightarrow> Inl e
      | Inr c \<Rightarrow>
          (case (if c = JUndefined \<or> c = JNull then Inr JUndefined else getProp c ''attached'') of
             Inl e \<Rightarrow> Inl e
           | Inr a \<Rightarrow> Inr (if truthy a then a else JArr [])))"

lemma size_map_of:
  "map_of kvs k = Some v \<Longrightarrow> size v < size (JObj kvs)"
  by (induction kvs) (auto split: if_splits)

lemma size_getProp:
  "getProp v k = Inr w \<Longrightarrow> w \<noteq> JUndefined \<Longrightarrow> size w < size v"
  by (cases v) (auto split: option.splits dest: size_map_of)

lemma size_child:
  assumes "attached node = Inr a" and "iterate a = Inr cs" and "child \<in> set cs"
  shows "size child < size node"
proof -
  from assms have nonempty: "a \<noteq> JArr []" by auto
  from assms(1) obtain c where c: "getProp node ''children'' = Inr c"
    by (auto simp: attached_def split: sum.splits)
  with assms(1) nonempty have c_def: "c \<noteq> JUndefined" "c \<noteq> JNull" and a: "getProp c ''attached'' = Inr a"
    by (auto simp: attached_def split: sum.splits if_splits)
  from a nonempty have "a \<noteq> JUndefined \<longrightarrow> size a < size c"
    by (auto dest: size_getProp)
  moreover from c c_def have "size c < size node"
    by (auto dest: size_getProp)
  moreover have "size child \<le> size a"
  proof (cases a)
    case (JArr xs)
    with assms(2,3) have "child \<in> set xs" by simp
    then have "size child \<le> size_list size xs"
      by (rule size_list_estimation') simp
    with JArr show ?thesis by simp
  next
    case (JStr s)
    with assms(2,3) show ?thesis by auto
  qed (insert assms(2), auto)
  moreover from assms(2) have "a \<noteq> JUndefined" by auto
  ultimately show ?thesis by simp
qed

text \<open>
  \<^verbatim>\<open>nodeToMarkdown\<close> (lines 85-108). Both call sites of the program pass all three
  arguments, so the defaults of \<^verbatim>\<open>level\<close> and \<^verbatim>\<open>mode\<close> are never taken here; the
  default of \<^verbatim>\<open>mode\<close> is in \<^verbatim>\<open>xmindToMarkdown\<close>. The mode is compared with
  \<^verbatim>\<open>"heading"\<close> only: every other mode takes the list branch.

  This is the function as the language defines it: what it returns or throws when the
  engine has room for every call. The engine's call stack is finite, and
  \<open>nodeToMarkdown_stack\<close> below is the same function under that limit.
\<close>

function nodeToMarkdown :: "jsval \<Rightarrow> int \<Rightarrow> string \<Rightarrow> error + string" where
  "nodeToMarkdown node level mode =
     (if \<not> truthy node then Inr []
      else
        (case getNodeTitle node of
           Inl e \<Rightarrow> Inl e
         | Inr title \<Rightarrow>
             (case (if mode = ''heading''
                    then (case repeat ''#'' (min level 6) of
                            Inl e \<Rightarrow> Inl e
                          | Inr hashes \<Rightarrow> Inr (hashes @ '' '' @ title @ ''\<newline>\<newline>''))
                    else (case repeat ''  '' (max 0 (level - 1)) of
                            Inl e \<Rightarrow> Inl e
                          | Inr indent \<Rightarrow> Inr (indent @ ''- '' @ title @ ''\<newline>''))) of
                Inl e \<Rightarrow> Inl e
              | Inr md \<Rightarrow>
                  (case attached node of
                     Inl e \<Rightarrow> Inl e
                   | Inr children \<Rightarrow>
                       (case iterate children of
                          Inl e \<Rightarrow> Inl e
                        | Inr cs \<Rightarrow>
                            for_of
                              (\<lambda>child md.
                                 case nodeToMarkdown child (level + 1) mode of
                                   Inl e \<Rightarrow> Inl e
                                 | Inr s \<Rightarrow> Inr (md @ s))
                              cs md)))))"
  by pat_completeness auto
termination
  by (relation "measure (\<lambda>(node, level, mode). size node)") (auto dest: size_child)

declare nodeToMarkdown.simps [simp del]



text \<open>
  \<^verbatim>\<open>xmindToMarkdown\<close> (lines 116-141). Lines 132-137, the \<^verbatim>\<open>if\<close> on the sheet's title:
  what a sheet appends after the separator, given \<^verbatim>\<open>content.length\<close>, the sheet and its
  \<^verbatim>\<open>rootTopic\<close>.
\<close>

definition sheetLines :: "nat \<Rightarrow> string \<Rightarrow> jsval \<Rightarrow> jsval \<Rightarrow> error + string" where
  "sheetLines content_length mode sheet rootTopic =
     (case getProp sheet ''title'' of
        Inl e \<Rightarrow> Inl e
      | Inr title \<Rightarrow>
          if truthy title \<and> content_length > 1
          then (case toString title of
                  Inl e \<Rightarrow> Inl e
                | Inr t \<Rightarrow>
                    (case nodeToMarkdown rootTopic 2 mode of
                       Inl e \<Rightarrow> Inl e
                     | Inr s \<Rightarrow> Inr ((''# '' @ t @ ''\<newline>\<newline>'') @ s)))
          else nodeToMarkdown rootTopic 1 mode)"

text \<open>
  The loop of lines 124-138, from index \<open>i\<close> with the text \<open>markdown\<close> built so far.
  \<open>i < length content\<close> guards \<open>content ! i\<close>.
\<close>

function xmindToMarkdown_loop :: "jsval list \<Rightarrow> string \<Rightarrow> nat \<Rightarrow> string \<Rightarrow> error + string" where
  "xmindToMarkdown_loop content mode i markdown =
     (if i < length content then
        (let sheet = content ! i in
         case getProp sheet ''rootTopic'' of
           Inl e \<Rightarrow> Inl e
         | Inr rootTopic \<Rightarrow>
             (let markdown = (if i > 0 then markdown @ ''\<newline>---\<newline>\<newline>'' else markdown) in
              case sheetLines (length content) mode sheet rootTopic of
                Inl e \<Rightarrow> Inl e
              | Inr s \<Rightarrow> xmindToMarkdown_loop content mode (i + 1) (markdown @ s)))
      else Inr markdown)"
  by pat_completeness auto
termination
  by (relation "measure (\<lambda>(content, mode, i, markdown). length content - i)") auto

declare xmindToMarkdown_loop.simps [simp del]

text \<open>
  The mode is \<open>None\<close> when the caller leaves it out, and the default \<^verbatim>\<open>"heading"\<close> is
  taken then. The check of line 117 lets a non-empty array through and nothing else.
\<close>

definition xmindToMarkdown :: "jsval \<Rightarrow> string option \<Rightarrow> error + string" where
  "xmindToMarkdown content mode =
     (let mode = (case mode of None \<Rightarrow> ''heading'' | Some m \<Rightarrow> m) in
      case content of
        JArr sheets \<Rightarrow>
          if length sheets = 0 then Inl (Error InvalidContentFormat)
          else xmindToMarkdown_loop sheets mode 0 []
      | _ \<Rightarrow> Inl (Error InvalidContentFormat))"

section \<open>Notions the properties are stated with\<close>

text \<open>
  What one sheet contributes to the output, separator apart, in a document of
  \<open>content_length\<close> sheets: line 126 and lines 132-137 of the loop body.
\<close>

definition sheetToMarkdown :: "nat \<Rightarrow> string \<Rightarrow> jsval \<Rightarrow> error + string" where
  "sheetToMarkdown content_length mode sheet =
     (case getProp sheet ''rootTopic'' of
        Inl e \<Rightarrow> Inl e
      | Inr rootTopic \<Rightarrow> sheetLines content_length mode sheet rootTopic)"







section \<open>Auxiliary facts\<close>

subsection \<open>Sequences of calls\<close>

lemma for_of_collect:
  "for_of (\<lambda>x md. case f x of Inl e \<Rightarrow> Inl e | Inr s \<Rightarrow> Inr (md @ s)) xs md =
     (case collect f xs of Inl e \<Rightarrow> Inl e | Inr rs \<Rightarrow> Inr (md @ concat rs))"
  by (induction xs arbitrary: md) (auto split: sum.splits)





subsection \<open>The title and the line of a node\<close>

lemma concat_replicate_single: "concat (replicate n [c]) = replicate n c"
  by (induction n) simp_all

lemma repeat_hashes: "0 \<le> level \<Longrightarrow> repeat ''#'' (min level 6) = Inr (replicate (nat (min level 6)) CHR ''#'')"
  by (simp add: repeat_def concat_replicate_single)

lemma repeat_indent: "repeat ''  '' (max 0 (level - 1)) = Inr (concat (replicate (nat (level - 1)) ''  ''))"
  by (simp add: repeat_def max_def)

lemma getNodeTitle_obj:
  "getNodeTitle (JObj kvs) = Inr (case map_of kvs ''title'' of Some (JStr t) \<Rightarrow> t | _ \<Rightarrow> [])"
  by (simp add: getNodeTitle_def split: option.splits jsval.splits)

lemma getNodeTitle_total: "\<exists>t. getNodeTitle node = Inr t"
  by (cases node) (simp_all add: getNodeTitle_def split: option.splits jsval.splits)

subsection \<open>One step of the renderer\<close>

lemma nodeToMarkdown_falsy: "\<not> truthy node \<Longrightarrow> nodeToMarkdown node level mode = Inr []"
  by (subst nodeToMarkdown.simps) simp

lemma nodeToMarkdown_unfold:
  assumes "truthy node"
  shows "nodeToMarkdown node level mode =
     (case getNodeTitle node of
        Inl e \<Rightarrow> Inl e
      | Inr title \<Rightarrow>
     (case (if mode = ''heading''
            then (case repeat ''#'' (min level 6) of
                    Inl e \<Rightarrow> Inl e
                  | Inr hashes \<Rightarrow> Inr (hashes @ '' '' @ title @ ''\<newline>\<newline>''))
            else (case repeat ''  '' (max 0 (level - 1)) of
                    Inl e \<Rightarrow> Inl e
                  | Inr indent \<Rightarrow> Inr (indent @ ''- '' @ title @ ''\<newline>''))) of
        Inl e \<Rightarrow> Inl e
      | Inr md \<Rightarrow>
          (case attached node of
             Inl e \<Rightarrow> Inl e
           | Inr a \<Rightarrow>
               (case iterate a of
                  Inl e \<Rightarrow> Inl e
                | Inr cs \<Rightarrow>
                    (case collect (\<lambda>c. nodeToMarkdown c (level + 1) mode) cs of
                       Inl e \<Rightarrow> Inl e
                     | Inr rs \<Rightarrow> Inr (md @ concat rs))))))"
  by (subst nodeToMarkdown.simps) (simp add: assms for_of_collect split: sum.splits)

lemma nodeToMarkdown_truthy:
  assumes "truthy node" and "getNodeTitle node = Inr title" and "0 \<le> level"
    and "attached node = Inr a" and "iterate a = Inr cs"
  shows "nodeToMarkdown node level mode =
     (case collect (\<lambda>c. nodeToMarkdown c (level + 1) mode) cs of
        Inl e \<Rightarrow> Inl e
      | Inr rs \<Rightarrow>
          Inr ((if mode = ''heading''
                then replicate (nat (min level 6)) CHR ''#'' @ '' '' @ title @ ''\<newline>\<newline>''
                else concat (replicate (nat (level - 1)) ''  '') @ ''- '' @ title @ ''\<newline>'')
               @ concat rs))"
proof (cases "mode = ''heading''")
  case True
  with assms show ?thesis
    by (subst nodeToMarkdown.simps) (simp add: repeat_hashes for_of_collect split: sum.splits)
next
  case False
  with assms show ?thesis
    by (subst nodeToMarkdown.simps) (simp add: repeat_indent for_of_collect split: sum.splits)
qed

lemma mode_other_is_list:
  "mode \<noteq> ''heading'' \<Longrightarrow> nodeToMarkdown node level mode = nodeToMarkdown node level ''list''"
proof (induction node level mode rule: nodeToMarkdown.induct)
  case (1 node level mode)
  show ?case
  proof (cases "truthy node")
    case False
    then show ?thesis by (simp add: nodeToMarkdown_falsy)
  next
    case True
    have "collect (\<lambda>c. nodeToMarkdown c (level + 1) mode) cs =
          collect (\<lambda>c. nodeToMarkdown c (level + 1) ''list'') cs"
      if "attached node = Inr a" and "iterate a = Inr cs" for a cs
    proof (rule collect_cong [OF refl])
      fix c assume "c \<in> set cs"
      with "1.IH" True that "1.prems" getNodeTitle_total [of node]
      show "nodeToMarkdown c (level + 1) mode = nodeToMarkdown c (level + 1) ''list''"
        by (auto simp: repeat_indent)
    qed
    with "1.prems" show ?thesis
      by (simp add: nodeToMarkdown_unfold [OF True] split: sum.splits)
  qed
qed

subsection \<open>The loop over the sheets\<close>

lemma loop_from:
  "0 < i \<Longrightarrow> i \<le> length content \<Longrightarrow>
   xmindToMarkdown_loop content mode i markdown =
     (case collect (sheetToMarkdown (length content) mode) (drop i content) of
        Inl e \<Rightarrow> Inl e
      | Inr rs \<Rightarrow> Inr (markdown @ concat (map (\<lambda>r. ''\<newline>---\<newline>\<newline>'' @ r) rs)))"
proof (induction content mode i markdown rule: xmindToMarkdown_loop.induct)
  case (1 content mode i markdown)
  show ?case
  proof (cases "i < length content")
    case False
    with "1.prems" show ?thesis
      by (subst xmindToMarkdown_loop.simps) simp
  next
    case True
    then have drop: "drop i content = content ! i # drop (i + 1) content"
      by (simp add: Cons_nth_drop_Suc)
    show ?thesis
    proof (cases "sheetToMarkdown (length content) mode (content ! i)")
      case (Inl e)
      with True drop show ?thesis
        by (subst xmindToMarkdown_loop.simps)
           (auto simp: sheetToMarkdown_def Let_def split: sum.splits)
    next
      case (Inr s)
      then obtain root where root: "getProp (content ! i) ''rootTopic'' = Inr root"
        and lines: "sheetLines (length content) mode (content ! i) root = Inr s"
        by (auto simp: sheetToMarkdown_def split: sum.splits)
      have "xmindToMarkdown_loop content mode i markdown =
              xmindToMarkdown_loop content mode (i + 1)
                ((markdown @ ''\<newline>---\<newline>\<newline>'') @ s)"
        using True "1.prems"(1) root lines
        by (subst xmindToMarkdown_loop.simps) (simp add: Let_def)
      also have "\<dots> =
        (case collect (sheetToMarkdown (length content) mode) (drop (i + 1) content) of
           Inl e \<Rightarrow> Inl e
         | Inr rs \<Rightarrow> Inr (((markdown @ ''\<newline>---\<newline>\<newline>'') @ s)
                          @ concat (map (\<lambda>r. ''\<newline>---\<newline>\<newline>'' @ r) rs)))"
        using "1.IH" [OF True refl root refl lines] True "1.prems"(1) by simp
      finally show ?thesis
        using Inr drop by (simp split: sum.splits)
    qed
  qed
qed

lemma xmindToMarkdown_sheets:
  "xmindToMarkdown (JArr (s # ss)) mode =
     (case sheetToMarkdown (Suc (length ss)) (case mode of None \<Rightarrow> ''heading'' | Some m \<Rightarrow> m) s of
        Inl e \<Rightarrow> Inl e
      | Inr r \<Rightarrow>
          (case collect (sheetToMarkdown (Suc (length ss))
                           (case mode of None \<Rightarrow> ''heading'' | Some m \<Rightarrow> m)) ss of
             Inl e \<Rightarrow> Inl e
           | Inr rs \<Rightarrow> Inr (r @ concat (map (\<lambda>r. ''\<newline>---\<newline>\<newline>'' @ r) rs))))"
proof -
  define m where "m = (case mode of None \<Rightarrow> ''heading'' | Some m \<Rightarrow> m)"
  have start: "xmindToMarkdown (JArr (s # ss)) mode = xmindToMarkdown_loop (s # ss) m 0 []"
    by (simp add: xmindToMarkdown_def m_def)
  show ?thesis
  proof (cases "sheetToMarkdown (Suc (length ss)) m s")
    case (Inl e)
    then show ?thesis
      unfolding start m_def [symmetric]
      by (subst xmindToMarkdown_loop.simps)
         (auto simp: sheetToMarkdown_def Let_def split: sum.splits)
  next
    case (Inr r)
    then obtain root where root: "getProp s ''rootTopic'' = Inr root"
      and lines: "sheetLines (Suc (length ss)) m s root = Inr r"
      by (auto simp: sheetToMarkdown_def split: sum.splits)
    have "xmindToMarkdown_loop (s # ss) m 0 [] = xmindToMarkdown_loop (s # ss) m 1 r"
      using root lines by (subst xmindToMarkdown_loop.simps) (simp add: Let_def)
    also have "\<dots> =
      (case collect (sheetToMarkdown (length (s # ss)) m) (drop 1 (s # ss)) of
         Inl e \<Rightarrow> Inl e
       | Inr rs \<Rightarrow> Inr (r @ concat (map (\<lambda>r. ''\<newline>---\<newline>\<newline>'' @ r) rs)))"
      by (rule loop_from) simp_all
    finally show ?thesis
      unfolding start m_def [symmetric] using Inr by simp
  qed
qed



lemma sheetToMarkdown_mode:
  "mode \<noteq> ''heading'' \<Longrightarrow> sheetToMarkdown n mode sheet = sheetToMarkdown n ''list'' sheet"
  by (simp add: sheetToMarkdown_def sheetLines_def mode_other_is_list [of mode] split: sum.splits)

subsection \<open>What can be thrown\<close>



subsection \<open>The renderer on a finite call stack\<close>







section \<open>The claims\<close>

subsection \<open>C1: depth-first pre-order\<close>

text \<open>
  Claim C1. For every topic node (a truthy value whose children can be iterated),
  rendering at a level \<open>\<ge> 0\<close> in either mode gives the node's own line first, then the
  renderings of its children in order, each at the next level and in the same mode, one
  directly after the other; the first child that fails makes the whole rendering fail
  with its error. A node with no children renders as its own line alone.
\<close>

theorem nodeToMarkdown_preorder:
  assumes "truthy node" and "0 \<le> level" and "getNodeTitle node = Inr title"
    and "attached node = Inr a" and "iterate a = Inr cs"
    and "line = (if mode = ''heading''
                 then replicate (nat (min level 6)) CHR ''#'' @ '' '' @ title @ ''\<newline>\<newline>''
                 else concat (replicate (nat (level - 1)) ''  '') @ ''- '' @ title @ ''\<newline>'')"
  shows "nodeToMarkdown node level mode =
           (case collect (\<lambda>child. nodeToMarkdown child (level + 1) mode) cs of
              Inl e \<Rightarrow> Inl e
            | Inr rs \<Rightarrow> Inr (line @ concat rs))
         \<and> (cs = [] \<longrightarrow> nodeToMarkdown node level mode = Inr line)"
proof -
  have "nodeToMarkdown node level mode =
           (case collect (\<lambda>child. nodeToMarkdown child (level + 1) mode) cs of
              Inl e \<Rightarrow> Inl e
            | Inr rs \<Rightarrow> Inr (line @ concat rs))"
    unfolding assms(6) using assms(1,3,2,4,5) by (rule nodeToMarkdown_truthy)
  then show ?thesis by auto
qed

text \<open>
  The example of the spec in list mode: the root's line, then the two children at level 2.
\<close>

theorem nodeToMarkdown_preorder_witness:
  "truthy (JObj [(''title'', JStr ''Root''),
                 (''children'', JObj [(''attached'',
                    JArr [JObj [(''title'', JStr ''A'')], JObj [(''title'', JStr ''B'')]])])])
   \<and> nodeToMarkdown
         (JObj [(''title'', JStr ''Root''),
                (''children'', JObj [(''attached'',
                   JArr [JObj [(''title'', JStr ''A'')], JObj [(''title'', JStr ''B'')]])])])
         1 ''list''
       = Inr ''- Root\<newline>  - A\<newline>  - B\<newline>''
   \<and> nodeToMarkdown (JObj [(''title'', JStr ''A'')]) 2 ''list'' = Inr ''  - A\<newline>''"
  using nodeToMarkdown_preorder
    [where node = "JObj [(''title'', JStr ''Root''),
                 (''children'', JObj [(''attached'',
                    JArr [JObj [(''title'', JStr ''A'')], JObj [(''title'', JStr ''B'')]])])]"
       and level = 1 and mode = "''list''" and title = "''Root''"
       and a = "JArr [JObj [(''title'', JStr ''A'')], JObj [(''title'', JStr ''B'')]]"
       and cs = "[JObj [(''title'', JStr ''A'')], JObj [(''title'', JStr ''B'')]]"
       and line = "''- Root\<newline>''"]
    nodeToMarkdown_preorder
    [where node = "JObj [(''title'', JStr ''A'')]"
       and level = 2 and mode = "''list''" and title = "''A''"
       and a = "JArr []" and cs = "[]" and line = "''  - A\<newline>''"]
    nodeToMarkdown_preorder
    [where node = "JObj [(''title'', JStr ''B'')]"
       and level = 2 and mode = "''list''" and title = "''B''"
       and a = "JArr []" and cs = "[]" and line = "''  - B\<newline>''"]
  by (simp add: getNodeTitle_def attached_def)

subsection \<open>C2: the line of a topic in heading mode\<close>

text \<open>
  Claim C2. For every title string \<open>t\<close> and every level \<open>L \<ge> 1\<close>, rendering in heading mode
  a topic with title \<open>t\<close> and no children gives \<^verbatim>\<open>#\<close> repeated \<open>min L 6\<close> times, a
  space, \<open>t\<close> and two line breaks; for \<open>L > 6\<close> these are exactly six \<^verbatim>\<open>#\<close>, and the
  rendering does not fail.
\<close>

theorem heading_mode_line:
  assumes "1 \<le> L" and "map_of kvs ''title'' = Some (JStr t)"
    and "attached (JObj kvs) = Inr (JArr [])"
  shows "nodeToMarkdown (JObj kvs) L ''heading'' =
           Inr (replicate (nat (min L 6)) CHR ''#'' @ '' '' @ t @ ''\<newline>\<newline>'')
         \<and> (6 < L \<longrightarrow>
              nodeToMarkdown (JObj kvs) L ''heading'' = Inr (''###### '' @ t @ ''\<newline>\<newline>''))"
proof -
  have title: "getNodeTitle (JObj kvs) = Inr t"
    using assms(2) by (simp add: getNodeTitle_obj)
  have line: "nodeToMarkdown (JObj kvs) L ''heading'' =
           Inr (replicate (nat (min L 6)) CHR ''#'' @ '' '' @ t @ ''\<newline>\<newline>'')"
    using assms(1) nodeToMarkdown_truthy [OF _ title _ assms(3), where cs = "[]" and level = L and mode = "''heading''"]
    by simp
  have "replicate (nat (min L 6)) CHR ''#'' = ''######''" if "6 < L"
    using that by (simp add: min_def numeral_eq_Suc)
  with line show ?thesis by simp
qed

text \<open>
  At level 9 the heading has six \<^verbatim>\<open>#\<close>.
\<close>

theorem heading_mode_line_witness:
  "(1::int) \<le> 9
   \<and> map_of [(''title'', JStr ''Deep'')] ''title'' = Some (JStr ''Deep'')
   \<and> attached (JObj [(''title'', JStr ''Deep'')]) = Inr (JArr [])
   \<and> nodeToMarkdown (JObj [(''title'', JStr ''Deep'')]) 9 ''heading''
       = Inr ''###### Deep\<newline>\<newline>''"
  using heading_mode_line [of 9 "[(''title'', JStr ''Deep'')]" "''Deep''"]
  by (simp add: attached_def numeral_eq_Suc)

subsection \<open>C3: the line of a topic in list mode\<close>

text \<open>
  Claim C3. For every title string \<open>t\<close> and every level \<open>L \<ge> 1\<close>, rendering in list mode a
  topic with title \<open>t\<close> and no children gives two spaces repeated \<open>L - 1\<close> times, then
  \<^verbatim>\<open>- \<close>, then \<open>t\<close>, then one line break and nothing after it.
\<close>

theorem list_mode_line:
  assumes "1 \<le> L" and "map_of kvs ''title'' = Some (JStr t)"
    and "attached (JObj kvs) = Inr (JArr [])"
  shows "nodeToMarkdown (JObj kvs) L ''list'' =
           Inr (concat (replicate (nat (L - 1)) ''  '') @ ''- '' @ t @ ''\<newline>'')"
proof -
  have title: "getNodeTitle (JObj kvs) = Inr t"
    using assms(2) by (simp add: getNodeTitle_obj)
  show ?thesis
    using assms(1) nodeToMarkdown_truthy [OF _ title _ assms(3), where cs = "[]" and level = L and mode = "''list''"]
    by simp
qed

text \<open>
  At level 3 the item is indented by four spaces.
\<close>

theorem list_mode_line_witness:
  "(1::int) \<le> 3
   \<and> map_of [(''title'', JStr ''Leaf'')] ''title'' = Some (JStr ''Leaf'')
   \<and> attached (JObj [(''title'', JStr ''Leaf'')]) = Inr (JArr [])
   \<and> nodeToMarkdown (JObj [(''title'', JStr ''Leaf'')]) 3 ''list''
       = Inr ''    - Leaf\<newline>''"
  using list_mode_line [of 3 "[(''title'', JStr ''Leaf'')]" "''Leaf''"]
  by (simp add: attached_def numeral_eq_Suc)

subsection \<open>C4: sheets are joined by the separator\<close>

text \<open>
  Claim C4. For every document with sheets \<open>s # ss\<close>, the output is the rendering of the
  first sheet, then for each later sheet the separator (a line break, \<^verbatim>\<open>---\<close>, two line
  breaks) followed by that sheet's rendering; the first sheet that fails makes the whole
  rendering fail. The output of a document with one sheet is that sheet's rendering, with
  no separator.
\<close>

theorem sheets_joined_by_separator:
  assumes "m = (case mode of None \<Rightarrow> ''heading'' | Some x \<Rightarrow> x)"
    and "n = length (s # ss)"
  shows "xmindToMarkdown (JArr (s # ss)) mode =
           (case sheetToMarkdown n m s of
              Inl e \<Rightarrow> Inl e
            | Inr r \<Rightarrow>
                (case collect (sheetToMarkdown n m) ss of
                   Inl e \<Rightarrow> Inl e
                 | Inr rs \<Rightarrow> Inr (r @ concat (map (\<lambda>r. ''\<newline>---\<newline>\<newline>'' @ r) rs))))
         \<and> (ss = [] \<longrightarrow> xmindToMarkdown (JArr (s # ss)) mode = sheetToMarkdown 1 m s)"
proof -
  have eq: "xmindToMarkdown (JArr (s # ss)) mode =
           (case sheetToMarkdown n m s of
              Inl e \<Rightarrow> Inl e
            | Inr r \<Rightarrow>
                (case collect (sheetToMarkdown n m) ss of
                   Inl e \<Rightarrow> Inl e
                 | Inr rs \<Rightarrow> Inr (r @ concat (map (\<lambda>r. ''\<newline>---\<newline>\<newline>'' @ r) rs))))"
  proof -
    from assms(2) have n: "n = Suc (length ss)" by simp
    show ?thesis unfolding assms(1) n by (rule xmindToMarkdown_sheets)
  qed
  moreover have "xmindToMarkdown (JArr (s # ss)) mode = sheetToMarkdown 1 m s" if "ss = []"
    using eq that assms(2) by (simp split: sum.splits)
  ultimately show ?thesis by blast
qed

text \<open>
  Two sheets in list mode: each with its title line, the separator between them.
\<close>

theorem sheets_joined_by_separator_witness:
  "xmindToMarkdown
     (JArr [JObj [(''title'', JStr ''One''), (''rootTopic'', JObj [(''title'', JStr ''A'')])],
            JObj [(''title'', JStr ''Two''), (''rootTopic'', JObj [(''title'', JStr ''B'')])]])
     (Some ''list'')
   = Inr ''# One\<newline>\<newline>  - A\<newline>\<newline>---\<newline>\<newline># Two\<newline>\<newline>  - B\<newline>''
   \<and> sheetToMarkdown 2 ''list''
         (JObj [(''title'', JStr ''One''), (''rootTopic'', JObj [(''title'', JStr ''A'')])])
       = Inr ''# One\<newline>\<newline>  - A\<newline>''
   \<and> sheetToMarkdown 2 ''list''
         (JObj [(''title'', JStr ''Two''), (''rootTopic'', JObj [(''title'', JStr ''B'')])])
       = Inr ''# Two\<newline>\<newline>  - B\<newline>''"
  using sheets_joined_by_separator
    [where m = "''list''" and mode = "Some ''list''" and n = 2
       and s = "JObj [(''title'', JStr ''One''), (''rootTopic'', JObj [(''title'', JStr ''A'')])]"
       and ss = "[JObj [(''title'', JStr ''Two''), (''rootTopic'', JObj [(''title'', JStr ''B'')])]]"]
  by (simp add: sheetToMarkdown_def sheetLines_def nodeToMarkdown.simps getNodeTitle_def
        attached_def repeat_def)

subsection \<open>C5: when the sheet title is a heading\<close>



subsection \<open>C6: what the core fails with\<close>




subsection \<open>C7: the mode\<close>

text \<open>
  Claim C7, as amended. No mode is rejected: a call that leaves the mode out renders as
  heading mode does, and every mode other than the exact string \<^verbatim>\<open>heading\<close> renders as
  list mode does.
\<close>

theorem mode_never_rejected:
  "xmindToMarkdown content None = xmindToMarkdown content (Some ''heading'')
   \<and> (mode \<noteq> ''heading'' \<longrightarrow>
        xmindToMarkdown content (Some mode) = xmindToMarkdown content (Some ''list''))"
proof -
  have "xmindToMarkdown content (Some mode) = xmindToMarkdown content (Some ''list'')"
    if other: "mode \<noteq> ''heading''"
  proof (cases "\<exists>s ss. content = JArr (s # ss)")
    case True
    then obtain s ss where content: "content = JArr (s # ss)" by blast
    have "sheetToMarkdown n mode = sheetToMarkdown n ''list''" for n
      using sheetToMarkdown_mode [OF other] by (intro ext)
    then show ?thesis
      unfolding content by (simp add: xmindToMarkdown_sheets cong: sum.case_cong)
  next
    case False
    then show ?thesis
      by (cases content; simp add: xmindToMarkdown_def; rename_tac xs; case_tac xs; simp)
  qed
  moreover have "xmindToMarkdown content None = xmindToMarkdown content (Some ''heading'')"
    by (simp add: xmindToMarkdown_def)
  ultimately show ?thesis by blast
qed

text \<open>
  Claim C7 as stated fails: the mode \<^verbatim>\<open>outline\<close> is not rejected, the document is
  rendered as a list.
\<close>

theorem unknown_mode_counterexample:
  "xmindToMarkdown (JArr [JObj [(''rootTopic'', JObj [(''title'', JStr ''Root'')])]]) (Some ''outline'')
     = Inr ''- Root\<newline>''"
  by (simp add: xmindToMarkdown_def xmindToMarkdown_loop.simps sheetLines_def
        nodeToMarkdown.simps getNodeTitle_def attached_def repeat_def)

text \<open>
  The mode \<^verbatim>\<open>outline\<close> is not \<^verbatim>\<open>heading\<close>, and renders as \<^verbatim>\<open>list\<close> does.
\<close>

theorem mode_never_rejected_witness:
  "''outline'' \<noteq> ''heading''
   \<and> xmindToMarkdown (JArr [JObj [(''rootTopic'', JObj [(''title'', JStr ''Root'')])]]) (Some ''outline'')
       = xmindToMarkdown (JArr [JObj [(''rootTopic'', JObj [(''title'', JStr ''Root'')])]]) (Some ''list'')"
  using mode_never_rejected
    [of "JArr [JObj [(''rootTopic'', JObj [(''title'', JStr ''Root'')])]]" "''outline''"]
  by simp

subsection \<open>C8: the title of a node\<close>

text \<open>
  Claim C8. For every node, the title text used in rendering is the node's \<^verbatim>\<open>title\<close>
  field when that field is a string, and the empty string in every other case (the node
  is not an object, or the field is absent, null or not a string). The result is always
  a value (\<open>Inr\<close>): computing the title never throws.
\<close>

theorem getNodeTitle_string_or_empty:
  "getNodeTitle node =
     Inr (case node of
            JObj kvs \<Rightarrow> (case map_of kvs ''title'' of Some (JStr t) \<Rightarrow> t | _ \<Rightarrow> [])
          | _ \<Rightarrow> [])"
  by (cases node) (simp_all add: getNodeTitle_def split: option.splits jsval.splits)

subsection \<open>C9: a sheet without a root topic\<close>



subsection \<open>C10: the renderer on every topic tree\<close>




end
